theory Spec2Isabelle
  imports Complex_Main "HOL-Library.Sublist" "HOL-Library.Log_Nat"
begin

section \<open>PlanItinerary: itineraries, events and the suggestion pipeline\<close>

text \<open>
  A shallow embedding of the \<^verbatim>\<open>PlanItinerary\<close> class and of the validators that
  follow it in the same source file.

  \<^item> A JavaScript \<^verbatim>\<open>number\<close> is the rational (\<^typ>\<open>rat\<close>) that the double stands for, so
    that comparing two numbers is comparing two rationals. The sum and the difference of
    two doubles are doubles again, rounded: they are operations of the host, not \<open>+\<close>
    and \<open>-\<close> of the rationals. NaN and the infinities are outside the model.
  \<^item> A JavaScript string is a \<^typ>\<open>string\<close>. The correspondence is for ASCII text: on a
    character beyond ASCII \<^verbatim>\<open>toLowerCase\<close>, \<^verbatim>\<open>\s\<close> and \<^verbatim>\<open>trim\<close> follow Unicode in the
    source, while here such a character is neither a letter nor white space.
  \<^item> What \<^verbatim>\<open>JSON.parse\<close> returns is a \<open>json\<close> value: the candidates that reach the
    validators are whatever the reply held, whatever their declared type.
  \<^item> Every \<^verbatim>\<open>throw\<close>, and every exception the language raises by itself, is a value of
    \<open>error\<close>; a function that can throw returns \<open>error + 'a\<close>.
  \<^item> Console output is not part of the model, but an exception raised while the text of
    a message is built is.
\<close>

subsection \<open>Values and exceptions\<close>

datatype json =
    JNull
  | JBool bool
  | JNum rat
  | JStr string
  | JArr "json list"
  | JObj "(string \<times> json) list"

datatype error =
    TripExists  \<comment> \<open>\<^verbatim>\<open>Error("An itinerary for this trip already exists.")\<close>\<close>
  | NoArrayInReply string  \<comment> \<open>\<^verbatim>\<open>Error(JSON.stringify(text))\<close>, with the reply text\<close>
  | InvalidFormat  \<comment> \<open>\<^verbatim>\<open>Error("Invalid suggestions format.")\<close>\<close>
  | NoValidSuggestions  \<comment> \<open>\<^verbatim>\<open>Error("No valid suggestions after validation.")\<close>\<close>
  | SyntaxError  \<comment> \<open>raised by \<^verbatim>\<open>JSON.parse\<close>\<close>
  | TypeError  \<comment> \<open>a property read on \<^verbatim>\<open>null\<close> or \<^verbatim>\<open>undefined\<close>, a call of a non-function\<close>
  | GatewayError string  \<comment> \<open>an \<^verbatim>\<open>Error\<close> that \<^verbatim>\<open>llm.executeLLM\<close> rejects with\<close>
  | Thrown "json option"  \<comment> \<open>a value that is no \<^verbatim>\<open>Error\<close>, thrown as it is; \<open>None\<close> is \<^verbatim>\<open>undefined\<close>\<close>

text \<open>
  The built-ins of the language that the source calls and whose full definition is not
  needed: \<^verbatim>\<open>JSON.parse\<close>; the sum and the difference of two numbers; the comparison \<^verbatim>\<open>v <= n\<close> of a value \<open>v\<close> that is not a number
  with a number \<open>n\<close> (it converts \<open>v\<close> to a number first, which can throw for an object
  and gives \<^verbatim>\<open>false\<close> for NaN); and the conversion of a value to a string inside a
  template literal (which can throw for an object). They are parameters of the model, so
  every theorem holds whatever they compute.
\<close>

record host =
  JSON_parse :: "string \<Rightarrow> error + json"
  Plus :: "rat \<Rightarrow> rat \<Rightarrow> rat"
  Minus :: "rat \<Rightarrow> rat \<Rightarrow> rat"
  LessEq :: "json \<Rightarrow> rat \<Rightarrow> error + bool"
  ToString :: "json \<Rightarrow> error + string"

text \<open>
  \<^verbatim>\<open>v.key\<close>: a \<^verbatim>\<open>TypeError\<close> on \<^verbatim>\<open>null\<close>, the own property of an object, and
  \<^verbatim>\<open>undefined\<close> (\<open>None\<close>) otherwise: the prototypes of objects, arrays, strings, numbers
  and booleans have no property called \<^verbatim>\<open>name\<close>, \<^verbatim>\<open>cost\<close> or \<^verbatim>\<open>location\<close>, the only keys
  the source reads.
\<close>

fun getProp :: "json \<Rightarrow> string \<Rightarrow> error + json option" where
  "getProp JNull key = Inl TypeError"
| "getProp (JObj props) key = Inr (map_of props key)"
| "getProp v key = Inr None"

text \<open>Truthiness, \<^verbatim>\<open>!v\<close> being its negation; \<open>None\<close> is \<^verbatim>\<open>undefined\<close>.\<close>

fun truthy :: "json option \<Rightarrow> bool" where
  "truthy None = False"
| "truthy (Some JNull) = False"
| "truthy (Some (JBool b)) = b"
| "truthy (Some (JNum n)) = (n \<noteq> 0)"
| "truthy (Some (JStr s)) = (s \<noteq> [])"
| "truthy (Some (JArr xs)) = True"
| "truthy (Some (JObj props)) = True"

text \<open>\<^verbatim>\<open>v || d\<close>\<close>

fun orElse :: "json option \<Rightarrow> json \<Rightarrow> json" where
  "orElse None d = d"
| "orElse (Some v) d = (if truthy (Some v) then v else d)"

subsection \<open>Strings\<close>

definition isUpper :: "char \<Rightarrow> bool" where
  "isUpper c = (let n = (of_char c :: nat) in 65 \<le> n \<and> n \<le> 90)"

definition isLower :: "char \<Rightarrow> bool" where
  "isLower c = (let n = (of_char c :: nat) in 97 \<le> n \<and> n \<le> 122)"

definition isDigit :: "char \<Rightarrow> bool" where
  "isDigit c = (let n = (of_char c :: nat) in 48 \<le> n \<and> n \<le> 57)"

text \<open>\<^verbatim>\<open>\s\<close> on ASCII: tab, line feed, vertical tab, form feed, carriage return, space.\<close>

definition isSpace :: "char \<Rightarrow> bool" where
  "isSpace c = (let n = (of_char c :: nat) in (9 \<le> n \<and> n \<le> 13) \<or> n = 32)"

definition toLowerChar :: "char \<Rightarrow> char" where
  "toLowerChar c = (if isUpper c then char_of ((of_char c :: nat) + 32) else c)"

definition toLowerCase :: "string \<Rightarrow> string" where
  "toLowerCase s = map toLowerChar s"

definition trim :: "string \<Rightarrow> string" where
  "trim s = rev (dropWhile isSpace (rev (dropWhile isSpace s)))"

text \<open>\<^verbatim>\<open>s.includes(t)\<close>: \<open>t\<close> occurs in \<open>s\<close> as a contiguous substring.\<close>

fun includesStr :: "string \<Rightarrow> string \<Rightarrow> bool" where
  "includesStr [] t = (t = [])"
| "includesStr (c # cs) t = (prefix t (c # cs) \<or> includesStr cs t)"

text \<open>
  The local function \<^verbatim>\<open>normalize\<close> of \<^verbatim>\<open>validateDestination\<close>:
  \<^verbatim>\<open>text.toLowerCase().replace(/[^a-z0-9\s]/g, "").trim()\<close>. The replacement deletes
  every character that is neither a lower-case letter, a digit nor white space.
\<close>

definition normalizeText :: "string \<Rightarrow> string" where
  "normalizeText text =
     trim (filter (\<lambda>c. isLower c \<or> isDigit c \<or> isSpace c) (toLowerCase text))"

text \<open>
  \<^verbatim>\<open>normalize\<close> applied to a value of any type: \<^verbatim>\<open>text.toLowerCase\<close> is a function only
  when \<open>text\<close> is a string.
\<close>

fun normalizeValue :: "json \<Rightarrow> error + string" where
  "normalizeValue (JStr s) = Inr (normalizeText s)"
| "normalizeValue v = Inl TypeError"

text \<open>
  \<^verbatim>\<open>text.match(/\[[\s\S]*\]/)\<close> and its element 0: the match starts at the first \<^verbatim>\<open>[\<close>
  and, the star being greedy, ends at the last \<^verbatim>\<open>]\<close> after it. When no \<^verbatim>\<open>]\<close> follows the
  first \<^verbatim>\<open>[\<close>, none follows a later one either, and there is no match.
\<close>

definition matchArray :: "string \<Rightarrow> string option" where
  "matchArray text =
     (case dropWhile (\<lambda>c. c \<noteq> CHR ''['') text of
        [] \<Rightarrow> None
      | bra # rest \<Rightarrow>
          (case dropWhile (\<lambda>c. c \<noteq> CHR '']'') (rev rest) of
             [] \<Rightarrow> None
           | ket # body \<Rightarrow> Some (bra # rev body @ [ket])))"

subsection \<open>The data model\<close>

record Trip =
  destination :: string
  startDate :: string
  endDate :: string
  groupSize :: rat

record Event =
  name :: string
  cost :: rat
  start :: string
  end' :: string
  location :: string
  pending :: bool
  approved :: bool

text \<open>
  An itinerary refers to its trip and to its events. In the heap of the class (below)
  the references are addresses; the functions that only read an itinerary take the
  objects it reaches, with \<open>'t = Trip\<close> and \<open>'e = Event\<close>.
\<close>

record ('t, 'e) Itinerary =
  trip :: 't
  events :: "'e list"
  finalized :: bool
  budget :: rat

subsection \<open>The budget\<close>

text \<open>
  \<^verbatim>\<open>filter\<close>, then \<^verbatim>\<open>reduce\<close> from 0 in the order of the events: each step is an addition
  of doubles, and so is the subtraction at the end.
\<close>

definition getRemainingBudget :: "host \<Rightarrow> ('t, Event) Itinerary \<Rightarrow> rat" where
  "getRemainingBudget H itinerary =
     (let spent = foldl (\<lambda>sum e. Plus H sum (cost e)) 0 (filter approved (events itinerary))
      in Minus H (budget itinerary) spent)"

subsection \<open>The validators\<close>

definition validateDestination :: "json \<Rightarrow> string \<Rightarrow> Event list \<Rightarrow> error + bool" where
  "validateDestination suggestion dest evs =
     (case getProp suggestion ''location'' of
        Inl e \<Rightarrow> Inl e
      | Inr loc \<Rightarrow>
          if \<not> truthy loc then Inr False
          else
            (let normalizedDest = normalizeText dest in
             case normalizeValue (orElse loc (JStr '''')) of
               Inl e \<Rightarrow> Inl e
             | Inr suggestionText \<Rightarrow>
                 (let matchesDestination = includesStr suggestionText normalizedDest;
                      itineraryLocations =
                        filter (\<lambda>loc. length loc > 0) (map (\<lambda>e. normalizeText (location e)) evs);
                      matchesExistingLocation =
                        list_ex (\<lambda>loc. includesStr suggestionText loc) itineraryLocations
                  in Inr (matchesDestination \<or> matchesExistingLocation))))"

text \<open>
  \<^verbatim>\<open>(suggestion.cost || 0) <= budget\<close>: between two numbers the comparison is the order of
  the numbers; for any other left operand it is the host's.
\<close>

fun lessEq :: "host \<Rightarrow> json \<Rightarrow> rat \<Rightarrow> error + bool" where
  "lessEq H (JNum n) b = Inr (n \<le> b)"
| "lessEq H v b = LessEq H v b"

definition validateBudget :: "host \<Rightarrow> json \<Rightarrow> rat \<Rightarrow> error + bool" where
  "validateBudget H suggestion remaining =
     (case getProp suggestion ''cost'' of
        Inl e \<Rightarrow> Inl e
      | Inr c \<Rightarrow> lessEq H (orElse c (JNum 0)) remaining)"

text \<open>
  \<^verbatim>\<open>events.some(e => e.name.toLowerCase() === suggestion.name.toLowerCase())\<close>: the
  callback runs for each event until one gives true, and on no event when there is none.
  \<^verbatim>\<open>suggestion.name.toLowerCase()\<close> throws unless the name is a string.
\<close>

fun isDuplicate :: "Event list \<Rightarrow> json \<Rightarrow> error + bool" where
  "isDuplicate [] suggestion = Inr False"
| "isDuplicate (e # es) suggestion =
     (case getProp suggestion ''name'' of
        Inl err \<Rightarrow> Inl err
      | Inr (Some (JStr n)) \<Rightarrow>
          if toLowerCase (name e) = toLowerCase n then Inr True else isDuplicate es suggestion
      | Inr other \<Rightarrow> Inl TypeError)"

text \<open>
  Building the text \<^verbatim>\<open>${suggestion.name}\<close> of the two messages of the loop: it cannot
  fail for \<^verbatim>\<open>undefined\<close> or a primitive value; for an array or an object the conversion
  is the host's. The text itself goes to the console only.
\<close>

fun toText :: "host \<Rightarrow> json option \<Rightarrow> error + unit" where
  "toText H (Some (JArr xs)) = (case ToString H (JArr xs) of Inl e \<Rightarrow> Inl e | Inr s \<Rightarrow> Inr ())"
| "toText H (Some (JObj props)) =
     (case ToString H (JObj props) of Inl e \<Rightarrow> Inl e | Inr s \<Rightarrow> Inr ())"
| "toText H v = Inr ()"

definition nameText :: "host \<Rightarrow> json \<Rightarrow> error + unit" where
  "nameText H suggestion =
     (case getProp suggestion ''name'' of
        Inl e \<Rightarrow> Inl e
      | Inr v \<Rightarrow> toText H v)"

text \<open>
  The loop of \<^verbatim>\<open>validateAllSuggestions\<close>, with \<open>validSuggestions\<close> as its accumulator. The
  three checks all run for every candidate, whatever the earlier ones answered.
\<close>

fun validateLoop ::
  "host \<Rightarrow> json list \<Rightarrow> Event list \<Rightarrow> string \<Rightarrow> rat \<Rightarrow> json list \<Rightarrow> error + json list" where
  "validateLoop H [] evs dest remaining validSuggestions = Inr validSuggestions"
| "validateLoop H (suggestion # rest) evs dest remaining validSuggestions =
     (case validateDestination suggestion dest evs of
        Inl e \<Rightarrow> Inl e
      | Inr destOk \<Rightarrow>
     (case validateBudget H suggestion remaining of
        Inl e \<Rightarrow> Inl e
      | Inr budgetOk \<Rightarrow>
     (case isDuplicate evs suggestion of
        Inl e \<Rightarrow> Inl e
      | Inr duplicate \<Rightarrow>
     (let issues =
            (if \<not> destOk then [''Destination mismatch''] else []) @
            (if \<not> budgetOk then [''Exceeds remaining budget''] else []) @
            (if duplicate then [''Duplicate of existing event''] else [])
      in case nameText H suggestion of
           Inl e \<Rightarrow> Inl e
         | Inr shown \<Rightarrow>
             validateLoop H rest evs dest remaining
               (if length issues > 0 then validSuggestions
                else validSuggestions @ [suggestion])))))"

definition validateAllSuggestions ::
  "host \<Rightarrow> json list \<Rightarrow> Event list \<Rightarrow> string \<Rightarrow> rat \<Rightarrow> error + json list" where
  "validateAllSuggestions H suggestions evs dest remaining =
     validateLoop H suggestions evs dest remaining []"

subsection \<open>The request\<close>

text \<open>
  The outcome of \<^verbatim>\<open>llm.executeLLM(prompt)\<close>: the promise is rejected, with an \<^verbatim>\<open>Error\<close> or
  with any other value (\<open>Thrown\<close>), \<^verbatim>\<open>undefined\<close> and \<^verbatim>\<open>null\<close> among them; or it resolves, to
  a text as its type declares or, since nothing checks that type when the program
  runs, to another value. The prompt is built from a well-typed itinerary without any
  exception and reaches only the gateway, so the outcome stands for it.
\<close>

datatype reply = Rejected error | Resolved string | ResolvedOther "json option"

text \<open>
  \<^verbatim>\<open>const text = await llm.executeLLM(prompt)\<close> up to the call of \<^verbatim>\<open>text.match\<close>: the
  rejection is thrown, and \<^verbatim>\<open>match\<close> is a function only when \<open>text\<close> is a string.
\<close>

fun replyText :: "reply \<Rightarrow> error + string" where
  "replyText (Rejected e) = Inl e"
| "replyText (Resolved s) = Inr s"
| "replyText (ResolvedOther (Some (JStr s))) = Inr s"
| "replyText (ResolvedOther v) = Inl TypeError"

text \<open>The block under \<^verbatim>\<open>try\<close>. An array is truthy, so \<^verbatim>\<open>!validated\<close> never holds.\<close>

definition tryBlock :: "host \<Rightarrow> (Trip, Event) Itinerary \<Rightarrow> reply \<Rightarrow> error + json list" where
  "tryBlock H itinerary llm =
     (let dest = destination (trip itinerary);
          remainingBudget = getRemainingBudget H itinerary
      in case replyText llm of
           Inl e \<Rightarrow> Inl e
         | Inr text \<Rightarrow>
             (case matchArray text of
                None \<Rightarrow> Inl (NoArrayInReply text)
              | Some jsonMatch \<Rightarrow>
                  (case JSON_parse H jsonMatch of
                     Inl e \<Rightarrow> Inl e
                   | Inr (JArr suggestions) \<Rightarrow>
                       (case validateAllSuggestions H suggestions (events itinerary)
                               dest remainingBudget of
                          Inl e \<Rightarrow> Inl e
                        | Inr validated \<Rightarrow>
                            if \<not> truthy (Some (JArr validated)) then Inl NoValidSuggestions
                            else Inr validated)
                   | Inr other \<Rightarrow> Inl InvalidFormat)))"

text \<open>
  \<^verbatim>\<open>(error as Error).message\<close>, the argument of \<^verbatim>\<open>console.error\<close> in the handler: reading
  a property of \<^verbatim>\<open>undefined\<close> or \<^verbatim>\<open>null\<close> is a \<^verbatim>\<open>TypeError\<close>; any other value has the
  property or gives \<^verbatim>\<open>undefined\<close>. The message itself goes to the console only.
\<close>

fun message :: "error \<Rightarrow> error + unit" where
  "message (Thrown None) = Inl TypeError"
| "message (Thrown (Some JNull)) = Inl TypeError"
| "message e = Inr ()"

text \<open>
  \<^verbatim>\<open>try { ... } catch (error) { console.error(..., (error as Error).message); return []; }\<close>:
  an exception raised in the handler leaves the function.
\<close>

definition requestSuggestionFromLLM ::
  "host \<Rightarrow> (Trip, Event) Itinerary \<Rightarrow> reply \<Rightarrow> error + json list" where
  "requestSuggestionFromLLM H itinerary llm =
     (case tryBlock H itinerary llm of
        Inl error \<Rightarrow> (case message error of Inl e \<Rightarrow> Inl e | Inr shown \<Rightarrow> Inr [])
      | Inr validated \<Rightarrow> Inr validated)"

subsection \<open>The class and its heap\<close>

text \<open>
  Trips, events and itineraries are objects: the class compares trips by reference and
  changes events and itineraries in place, through whatever reference the caller holds.
  The heap keeps the objects of each kind in a list, and a reference is the position of
  its object (\<open>new\<close> appends). \<open>itineraries\<close> is the private field of the class. A
  reference always denotes an object in the source; at a position beyond the heap an
  update leaves the heap as it is.
\<close>

type_synonym ref = nat

record store =
  tripObjs :: "Trip list"
  eventObjs :: "Event list"
  itinObjs :: "(ref, ref) Itinerary list"
  itineraries :: "ref list"

definition emptyStore :: store where
  "emptyStore = \<lparr>tripObjs = [], eventObjs = [], itinObjs = [], itineraries = []\<rparr>"

text \<open>An object literal \<^verbatim>\<open>const trip: Trip = {...}\<close> of the caller.\<close>

definition newTrip :: "store \<Rightarrow> Trip \<Rightarrow> ref \<times> store" where
  "newTrip st t = (length (tripObjs st), st\<lparr>tripObjs := tripObjs st @ [t]\<rparr>)"

definition create :: "store \<Rightarrow> ref \<Rightarrow> rat \<Rightarrow> error + ref \<times> store" where
  "create st t b =
     (let existing = find (\<lambda>i. trip (itinObjs st ! i) = t) (itineraries st)
      in if existing \<noteq> None then Inl TripExists
         else
           (let itinerary = \<lparr>trip = t, events = [], finalized = False, budget = b\<rparr>;
                r = length (itinObjs st)
            in Inr (r, st\<lparr>itinObjs := itinObjs st @ [itinerary],
                          itineraries := itineraries st @ [r]\<rparr>)))"

definition addEvent ::
  "store \<Rightarrow> string \<Rightarrow> rat \<Rightarrow> string \<Rightarrow> ref \<Rightarrow> string \<Rightarrow> string \<Rightarrow> ref \<times> store" where
  "addEvent st n c l itinerary s e =
     (let event = \<lparr>name = n, cost = c, start = s, end' = e, location = l,
                    pending = True, approved = False\<rparr>;
          r = length (eventObjs st);
          obj = itinObjs st ! itinerary
      in (r, st\<lparr>eventObjs := eventObjs st @ [event],
                 itinObjs := (itinObjs st)[itinerary := obj\<lparr>events := events obj @ [r]\<rparr>]\<rparr>))"

definition updateEvent :: "store \<Rightarrow> ref \<Rightarrow> string \<Rightarrow> rat \<Rightarrow> string \<Rightarrow> string \<Rightarrow> store" where
  "updateEvent st event n c s e =
     st\<lparr>eventObjs :=
          (eventObjs st)[event := (eventObjs st ! event)\<lparr>name := n, cost := c, start := s, end' := e\<rparr>]\<rparr>"

definition setEventApproval :: "store \<Rightarrow> ref \<Rightarrow> bool \<Rightarrow> store" where
  "setEventApproval st event a =
     st\<lparr>eventObjs := (eventObjs st)[event := (eventObjs st ! event)\<lparr>approved := a, pending := False\<rparr>]\<rparr>"

definition finalizeItinerary :: "store \<Rightarrow> ref \<Rightarrow> bool \<Rightarrow> store" where
  "finalizeItinerary st itinerary f =
     st\<lparr>itinObjs := (itinObjs st)[itinerary := (itinObjs st ! itinerary)\<lparr>finalized := f\<rparr>]\<rparr>"

text \<open>
  What a caller can do with the class: a sequence of calls, run from the empty heap. A
  \<open>create\<close> that throws leaves the heap as it was.
\<close>

datatype call =
    NewTrip Trip
  | Create ref rat
  | AddEvent string rat string ref string string
  | UpdateEvent ref string rat string string
  | SetEventApproval ref bool
  | FinalizeItinerary ref bool

fun exec :: "store \<Rightarrow> call \<Rightarrow> store" where
  "exec st (NewTrip t) = snd (newTrip st t)"
| "exec st (Create t b) = (case create st t b of Inl e \<Rightarrow> st | Inr (r, st') \<Rightarrow> st')"
| "exec st (AddEvent n c l itinerary s e) = snd (addEvent st n c l itinerary s e)"
| "exec st (UpdateEvent event n c s e) = updateEvent st event n c s e"
| "exec st (SetEventApproval event a) = setEventApproval st event a"
| "exec st (FinalizeItinerary itinerary f) = finalizeItinerary st itinerary f"

definition run :: "call list \<Rightarrow> store" where
  "run calls = foldl exec emptyStore calls"

text \<open>The objects an itinerary reaches, as the functions that only read it take them.\<close>

definition snapshot :: "store \<Rightarrow> ref \<Rightarrow> (Trip, Event) Itinerary" where
  "snapshot st r =
     (let obj = itinObjs st ! r
      in \<lparr>trip = tripObjs st ! trip obj,
          events = map (\<lambda>e. eventObjs st ! e) (events obj),
          finalized = finalized obj,
          budget = budget obj\<rparr>)"

subsection \<open>Notions used to state the properties\<close>

text \<open>
  A candidate as the interface \<^verbatim>\<open>Suggestion\<close> declares it, as far as the validators read
  it: an object whose \<^verbatim>\<open>name\<close> is a string, whose \<^verbatim>\<open>location\<close> is a string or missing and
  whose \<^verbatim>\<open>cost\<close> is a number or missing.
\<close>

fun isSuggestion :: "json \<Rightarrow> bool" where
  "isSuggestion (JObj props) =
     ((case map_of props ''name'' of Some (JStr n) \<Rightarrow> True | _ \<Rightarrow> False) \<and>
      (case map_of props ''location'' of None \<Rightarrow> True | Some (JStr l) \<Rightarrow> True | _ \<Rightarrow> False) \<and>
      (case map_of props ''cost'' of None \<Rightarrow> True | Some (JNum c) \<Rightarrow> True | _ \<Rightarrow> False))"
| "isSuggestion v = False"

definition nameOf :: "json \<Rightarrow> string" where
  "nameOf s = (case getProp s ''name'' of Inr (Some (JStr n)) \<Rightarrow> n | _ \<Rightarrow> [])"

definition locationOf :: "json \<Rightarrow> string" where
  "locationOf s = (case getProp s ''location'' of Inr (Some (JStr l)) \<Rightarrow> l | _ \<Rightarrow> [])"

text \<open>The cost of a candidate, 0 when it has none.\<close>

definition costOf :: "json \<Rightarrow> rat" where
  "costOf s = (case getProp s ''cost'' of Inr (Some (JNum c)) \<Rightarrow> c | _ \<Rightarrow> 0)"

text \<open>A candidate passes the three checks of the loop.\<close>

definition passes :: "host \<Rightarrow> Event list \<Rightarrow> string \<Rightarrow> rat \<Rightarrow> json \<Rightarrow> bool" where
  "passes H evs dest remaining s =
     (validateDestination s dest evs = Inr True \<and> validateBudget H s remaining = Inr True \<and>
      isDuplicate evs s = Inr False)"

text \<open>No event of the heap is both approved and pending.\<close>

definition undecidedOrDecided :: "store \<Rightarrow> bool" where
  "undecidedOrDecided st = list_all (\<lambda>e. \<not> (approved e \<and> pending e)) (eventObjs st)"

text \<open>The one call that writes the flags of an event that exists already.\<close>

fun isSetEventApproval :: "call \<Rightarrow> bool" where
  "isSetEventApproval (SetEventApproval event a) = True"
| "isSetEventApproval c = False"

subsection \<open>Double precision\<close>

text \<open>
  What the addition and the subtraction of IEEE 754 doubles do to the exact result:
  they round it to the nearest number with a significand of 53 bits (to the nearest
  multiple of \<open>2 ^ (-1074)\<close> below \<open>2 ^ (-1022)\<close>), and of two nearest ones to the one whose
  last bit is 0. A result beyond the largest double, which the source turns into an
  infinity, is outside the model. \<open>pow2 k\<close> is \<open>2 ^ k\<close> for an integer \<open>k\<close>, and
  \<open>exponent x\<close> is the integer \<open>e\<close> with \<open>2 ^ e \<le> \<bar>x\<bar> < 2 ^ (e + 1)\<close>.
\<close>

definition pow2 :: "int \<Rightarrow> rat" where
  "pow2 k = (if 0 \<le> k then 2 ^ nat k else 1 / 2 ^ nat (- k))"

definition exponent :: "rat \<Rightarrow> int" where
  "exponent x =
     (case quotient_of \<bar>x\<bar> of (a, b) \<Rightarrow>
        (let est = bitlen a - bitlen b in if pow2 est \<le> \<bar>x\<bar> then est else est - 1))"

definition roundHalfEven :: "rat \<Rightarrow> int" where
  "roundHalfEven m =
     (let f = \<lfloor>m\<rfloor>; d = m - of_int f
      in if d < 1 / 2 then f else if 1 / 2 < d then f + 1 else if even f then f else f + 1)"

definition roundDouble :: "rat \<Rightarrow> rat" where
  "roundDouble x =
     (if x = 0 then 0
      else (let q = pow2 (max (exponent x - 52) (- 1074))
            in of_int (roundHalfEven (x / q)) * q))"

subsection \<open>Worked examples\<close>

text \<open>The trips and events of the test file, and candidates as a reply may hold them.\<close>

definition romeTrip :: Trip where
  "romeTrip = \<lparr>destination = ''Rome, Italy'', startDate = ''2025-06-01'',
     endDate = ''2025-06-14'', groupSize = 4\<rparr>"

definition springBreak :: Trip where
  "springBreak = \<lparr>destination = ''Spring Break'', startDate = ''2025-03-10'',
     endDate = ''2025-03-17'', groupSize = 1\<rparr>"

definition colosseum :: Event where
  "colosseum = \<lparr>name = ''Colosseum Tour'', cost = 150, start = ''2025-06-03T10:00:00Z'',
     end' = ''2025-06-03T12:00:00Z'', location = ''Rome, Italy'', pending = False,
     approved = True\<rparr>"

text \<open>An event that nobody has approved.\<close>

definition louvre :: Event where
  "louvre = \<lparr>name = ''Louvre Visit'', cost = 20, start = ''2025-03-11T10:00:00Z'',
     end' = ''2025-03-11T13:00:00Z'', location = ''Paris, France'', pending = True,
     approved = False\<rparr>"

text \<open>An event whose place is not known yet.\<close>

definition dinner :: Event where
  "dinner = \<lparr>name = ''Dinner'', cost = 40, start = ''2025-06-04T19:00:00Z'',
     end' = ''2025-06-04T21:00:00Z'', location = ''?'', pending = True, approved = False\<rparr>"

definition romeItinerary :: "(Trip, Event) Itinerary" where
  "romeItinerary = \<lparr>trip = romeTrip, events = [colosseum], finalized = False, budget = 2500\<rparr>"

definition springBreakItinerary :: "(Trip, Event) Itinerary" where
  "springBreakItinerary =
     \<lparr>trip = springBreak, events = [louvre], finalized = False, budget = 1200\<rparr>"

definition overspent :: "(Trip, Event) Itinerary" where
  "overspent = \<lparr>trip = romeTrip, events = [colosseum], finalized = False, budget = 100\<rparr>"

text \<open>
  An itinerary whose budget is \<open>2 ^ 53\<close>, with two approved events that cost \<open>2 ^ 53\<close>
  and 1; and one whose budget is the double written 0.3, with two approved events that
  cost the doubles written 0.1 and 0.2.
\<close>

definition charter :: Event where
  "charter = \<lparr>name = ''Charter'', cost = 9007199254740992, start = ''2025-06-05T10:00:00Z'',
     end' = ''2025-06-05T12:00:00Z'', location = ''Rome, Italy'', pending = False,
     approved = True\<rparr>"

definition espresso :: Event where
  "espresso = \<lparr>name = ''Espresso'', cost = 1, start = ''2025-06-05T13:00:00Z'',
     end' = ''2025-06-05T13:30:00Z'', location = ''Rome, Italy'', pending = False,
     approved = True\<rparr>"

definition lavish :: "(Trip, Event) Itinerary" where
  "lavish = \<lparr>trip = romeTrip, events = [charter, espresso], finalized = False,
     budget = 9007199254740992\<rparr>"

definition frugal :: "(Trip, Event) Itinerary" where
  "frugal =
     \<lparr>trip = romeTrip,
      events = [espresso\<lparr>cost := 3602879701896397 / 36028797018963968\<rparr>,
                espresso\<lparr>cost := 3602879701896397 / 18014398509481984\<rparr>],
      finalized = False,
      budget = 5404319552844595 / 18014398509481984\<rparr>"

definition pantheon :: json where
  "pantheon = JObj [(''name'', JStr ''Pantheon''), (''cost'', JNum 0),
     (''category'', JStr ''Sightseeing''), (''location'', JStr ''Rome, Italy''),
     (''durationHours'', JNum 1)]"

text \<open>A candidate without a name.\<close>

definition nameless :: json where
  "nameless = JObj [(''cost'', JNum 10), (''category'', JStr ''Dining''),
     (''location'', JStr ''Rome, Italy''), (''durationHours'', JNum 1)]"

definition trastevere :: json where
  "trastevere = JObj [(''name'', JStr ''Trastevere Food Walk''), (''cost'', JNum 50),
     (''category'', JStr ''Dining''), (''location'', JStr ''Trastevere, Rome, Italy''),
     (''durationHours'', JNum 3)]"

definition tasting :: json where
  "tasting = JObj [(''name'', JStr ''Tasting Menu''), (''cost'', JNum 75),
     (''category'', JStr ''Dining''), (''location'', JStr ''Rome, Italy''),
     (''durationHours'', JNum 2)]"

definition again :: json where
  "again = JObj [(''name'', JStr ''colosseum tour''), (''cost'', JNum 30),
     (''category'', JStr ''Sightseeing''), (''location'', JStr ''Rome, Italy''),
     (''durationHours'', JNum 2)]"

definition eiffel :: json where
  "eiffel = JObj [(''name'', JStr ''Eiffel Tower''), (''cost'', JNum 30),
     (''category'', JStr ''Sightseeing''), (''location'', JStr ''Paris, France''),
     (''durationHours'', JNum 2)]"

text \<open>A candidate without a cost.\<close>

definition trevi :: json where
  "trevi = JObj [(''name'', JStr ''Trevi Fountain''), (''category'', JStr ''Sightseeing''),
     (''location'', JStr ''Rome, Italy''), (''durationHours'', JNum 1)]"

text \<open>Replies of the gateway: an array after some words, no array, an array alone, two arrays.\<close>

definition namelessReply :: string where
  \<open>namelessReply = ''Here you go: [{"cost": 10, "category": "Dining", "location": "Rome, Italy", "durationHours": 1}, {"name": "Pantheon", "cost": 0, "category": "Sightseeing", "location": "Rome, Italy", "durationHours": 1}]''\<close>

definition errorReply :: string where
  \<open>errorReply = ''{"error": "Unable to determine destination."}''\<close>

definition eiffelReply :: string where
  \<open>eiffelReply = ''[{"name": "Eiffel Tower", "cost": 30, "category": "Sightseeing", "location": "Paris, France", "durationHours": 2}]''\<close>

definition twoArraysReply :: string where
  "twoArraysReply = ''Top pick: [1]. Others: [2, 3].''"

text \<open>
  A host for the examples. Its parser knows the arrays of \<open>namelessReply\<close> and of
  \<open>eiffelReply\<close> and rejects every other text; its sum and difference are those of
  doubles; its two conversions are never consulted by the examples, whose costs are
  numbers and whose names are strings or missing.
\<close>

definition exampleHost :: host where
  \<open>exampleHost =
     \<lparr>JSON_parse =
        (\<lambda>s. if s = ''[{"cost": 10, "category": "Dining", "location": "Rome, Italy", "durationHours": 1}, {"name": "Pantheon", "cost": 0, "category": "Sightseeing", "location": "Rome, Italy", "durationHours": 1}]''
             then Inr (JArr [nameless, pantheon])
             else if s = eiffelReply then Inr (JArr [eiffel])
             else Inl SyntaxError),
      Plus = (\<lambda>x y. roundDouble (x + y)),
      Minus = (\<lambda>x y. roundDouble (x - y)),
      LessEq = (\<lambda>v n. Inr False),
      ToString = (\<lambda>v. Inr ''[object Object]'')\<rparr>\<close>

text \<open>A caller's session: a trip, its itinerary, one event, approved.\<close>

definition exampleCalls :: "call list" where
  "exampleCalls =
     [NewTrip romeTrip, Create 0 2500,
      AddEvent ''Colosseum Tour'' 150 ''Rome, Italy'' 0 ''2025-06-03T10:00:00Z''
        ''2025-06-03T12:00:00Z'',
      SetEventApproval 0 True]"

text \<open>Two trip objects with the same fields, and an itinerary for the first.\<close>

definition twinCalls :: "call list" where
  "twinCalls = [NewTrip romeTrip, NewTrip romeTrip, Create 0 2500]"

section \<open>Properties\<close>

subsection \<open>The budget\<close>

lemma foldl_cost_map: "foldl (\<lambda>sum e. Plus H sum (cost e)) a xs = foldl (Plus H) a (map cost xs)"
  by (induction xs arbitrary: a) simp_all

text \<open>
  C7, as the code has it. \<open>getRemainingBudget\<close> returns the budget of the itinerary
  minus the sum of the costs of exactly the events with \<open>approved = true\<close>, where the
  sum is accumulated from 0 in the order of the events, and where each addition and the
  subtraction is the operation of doubles, which rounds its result. An event that is not
  approved, wherever it stands in the list and whatever it costs, does not change the
  result. The result is a number in every case, also when it is negative.
\<close>

theorem getRemainingBudget_approved_only:
  "getRemainingBudget H it =
     Minus H (budget it) (foldl (Plus H) 0 (map cost (filter approved (events it)))) \<and>
   getRemainingBudget H (it\<lparr>events := xs @ e\<lparr>approved := False\<rparr> # ys\<rparr>) =
     getRemainingBudget H (it\<lparr>events := xs @ ys\<rparr>) \<and>
   getRemainingBudget H (it\<lparr>events := filter approved (events it)\<rparr>) = getRemainingBudget H it"
  by (simp add: getRemainingBudget_def foldl_cost_map)

text \<open>
  With a budget of 100 and an approved event of 150 the remaining budget is \<open>-50\<close>, and
  a pending event of 20 added to the itinerary leaves it there.
\<close>

theorem getRemainingBudget_approved_only_witness:
  "getRemainingBudget exampleHost overspent = - 50 \<and>
   getRemainingBudget exampleHost
     (overspent\<lparr>events := [colosseum] @ louvre\<lparr>approved := False\<rparr> # []\<rparr>) = - 50"
proof -
  have 1: "Minus exampleHost (budget overspent)
             (foldl (Plus exampleHost) 0 (map cost (filter approved (events overspent)))) = - 50"
    by code_simp
  have 2: "overspent\<lparr>events := [colosseum] @ []\<rparr> = overspent"
    by (simp add: overspent_def)
  from getRemainingBudget_approved_only[of exampleHost overspent "[colosseum]" louvre "[]"] 1 2
  show ?thesis by simp
qed

text \<open>
  C7 as it is stated, with the sum and the difference of the numbers themselves, fails
  where an operation rounds. With a budget of \<open>2 ^ 53\<close> and approved costs of \<open>2 ^ 53\<close>
  and 1, the sum of the doubles is \<open>2 ^ 53\<close> again and the code returns 0, not \<open>-1\<close>.
  With a budget of 0.3 and approved costs of 0.1 and 0.2, as doubles, the code returns
  \<open>- (1 / 2 ^ 54)\<close>, while the budget minus the sum of the costs is \<open>- (1 / 2 ^ 55)\<close>.
\<close>

theorem getRemainingBudget_rounding_counterexample:
  "getRemainingBudget exampleHost lavish = 0 \<and>
   budget lavish - sum_list (map cost (filter approved (events lavish))) = - 1 \<and>
   getRemainingBudget exampleHost frugal = - (1 / 18014398509481984) \<and>
   budget frugal - sum_list (map cost (filter approved (events frugal)))
     = - (1 / 36028797018963968)"
  by code_simp

subsection \<open>The destination check\<close>

lemma includesStr_sublist: "includesStr s t = sublist t s"
  by (induction s) (simp_all add: sublist_Cons_right)

lemma dropWhile_all: "\<forall>x\<in>set xs. P x \<Longrightarrow> dropWhile P xs = []"
  by (induction xs) auto

lemma toLowerChar_id: "\<not> isUpper c \<Longrightarrow> toLowerChar c = c"
  by (simp add: toLowerChar_def)

lemma normalizeText_no_alnum:
  assumes "\<forall>c\<in>set d. \<not> isUpper c \<and> \<not> isLower c \<and> \<not> isDigit c"
  shows "normalizeText d = []"
proof -
  have "toLowerCase d = d"
    using assms by (simp add: toLowerCase_def toLowerChar_id map_idI)
  moreover have "\<forall>x\<in>set (filter (\<lambda>c. isLower c \<or> isDigit c \<or> isSpace c) d). isSpace x"
    using assms by auto
  ultimately show ?thesis
    by (simp add: normalizeText_def trim_def dropWhile_all)
qed

lemma validateDestination_string:
  "getProp s ''location'' = Inr (Some (JStr l)) \<Longrightarrow>
   validateDestination s dest evs =
     Inr (l \<noteq> [] \<and>
          (sublist (normalizeText dest) (normalizeText l) \<or>
           (\<exists>e\<in>set evs. normalizeText (location e) \<noteq> [] \<and>
                sublist (normalizeText (location e)) (normalizeText l))))"
  by (auto simp: validateDestination_def list_ex_iff includesStr_sublist Let_def)

lemma validateDestination_undefined:
  "getProp s ''location'' = Inr None \<Longrightarrow> validateDestination s dest evs = Inr False"
  by (simp add: validateDestination_def)

lemma validateDestination_TrueD:
  assumes "validateDestination s dest evs = Inr True"
  shows "\<exists>l. getProp s ''location'' = Inr (Some (JStr l)) \<and> l \<noteq> [] \<and>
           (sublist (normalizeText dest) (normalizeText l) \<or>
            (\<exists>e\<in>set evs. normalizeText (location e) \<noteq> [] \<and>
                 sublist (normalizeText (location e)) (normalizeText l)))"
proof (cases "getProp s ''location''")
  case (Inl e)
  with assms show ?thesis by (simp add: validateDestination_def)
next
  case (Inr loc)
  show ?thesis
  proof (cases loc)
    case None
    with Inr assms show ?thesis by (simp add: validateDestination_def)
  next
    case (Some v)
    show ?thesis
    proof (cases v)
      case (JStr l)
      with Some Inr have g: "getProp s ''location'' = Inr (Some (JStr l))" by simp
      from assms validateDestination_string[OF g, of dest evs] g show ?thesis by simp
    qed (use Some Inr assms in \<open>simp_all add: validateDestination_def split: if_splits\<close>)
  qed
qed

lemma normalizeText_rome: "normalizeText ''Rome, Italy'' = ''rome italy''"
  by code_simp

lemma normalizeText_trastevere:
  "normalizeText ''Trastevere, Rome, Italy'' = ''trastevere rome italy''"
  by code_simp

lemma normalizeText_paris: "normalizeText ''Paris, France'' = ''paris france''"
  by code_simp

text \<open>
  C3, as the code has it. For a suggestion whose location is a string,
  \<open>validateDestination\<close> accepts if and only if the location is not empty and, both sides
  normalized (lower case, every character deleted that is neither a letter, a digit nor
  white space, white space trimmed at both ends), the location contains the destination
  as a substring or contains the normalized location of some event of the itinerary,
  approved or not, whose normalized location is not empty. A suggestion without a
  location is rejected. For the destination "Rome, Italy" a suggestion located
  "Trastevere, Rome, Italy" is accepted whatever the events, and one located
  "Paris, France" is rejected when no event location matches.
\<close>

theorem validateDestination_accepts:
  "(getProp s ''location'' = Inr (Some (JStr l)) \<longrightarrow>
      validateDestination s dest evs =
        Inr (l \<noteq> [] \<and>
             (sublist (normalizeText dest) (normalizeText l) \<or>
              (\<exists>e\<in>set evs. normalizeText (location e) \<noteq> [] \<and>
                   sublist (normalizeText (location e)) (normalizeText l))))) \<and>
   (getProp s ''location'' = Inr None \<longrightarrow> validateDestination s dest evs = Inr False) \<and>
   validateDestination (JObj [(''location'', JStr ''Trastevere, Rome, Italy'')])
     ''Rome, Italy'' evs = Inr True \<and>
   ((\<forall>e\<in>set evs'. \<not> sublist (normalizeText (location e)) ''paris france'') \<longrightarrow>
      validateDestination (JObj [(''location'', JStr ''Paris, France'')])
        ''Rome, Italy'' evs' = Inr False)"
proof -
  have rome: "sublist ''rome italy'' ''trastevere rome italy''"
    unfolding includesStr_sublist[symmetric] by code_simp
  have paris: "\<not> sublist ''rome italy'' ''paris france''"
    unfolding includesStr_sublist[symmetric] by code_simp
  have 1: "validateDestination (JObj [(''location'', JStr ''Trastevere, Rome, Italy'')])
     ''Rome, Italy'' evs = Inr True"
    using rome
    by (subst validateDestination_string[where l = "''Trastevere, Rome, Italy''"])
       (simp_all add: normalizeText_rome normalizeText_trastevere)
  have 2: "validateDestination (JObj [(''location'', JStr ''Paris, France'')])
        ''Rome, Italy'' evs' = Inr False"
    if "\<forall>e\<in>set evs'. \<not> sublist (normalizeText (location e)) ''paris france''"
    using paris that
    by (subst validateDestination_string[where l = "''Paris, France''"])
       (simp_all add: normalizeText_rome normalizeText_paris)
  from 1 2 show ?thesis
    by (simp add: validateDestination_string validateDestination_undefined)
qed

text \<open>
  The itinerary of the test file (one event, in Rome) and a suggestion in Trastevere:
  accepted. A suggestion in Paris: rejected.
\<close>

theorem validateDestination_accepts_witness:
  "getProp trastevere ''location'' = Inr (Some (JStr ''Trastevere, Rome, Italy'')) \<and>
   validateDestination trastevere ''Rome, Italy'' [colosseum] = Inr True \<and>
   getProp (JArr []) ''location'' = Inr None \<and>
   validateDestination (JArr []) ''Rome, Italy'' [colosseum] = Inr False \<and>
   validateDestination (JObj [(''location'', JStr ''Paris, France'')]) ''Rome, Italy''
     [colosseum] = Inr False"
proof -
  have 1: "getProp trastevere ''location'' = Inr (Some (JStr ''Trastevere, Rome, Italy''))"
    by (simp add: trastevere_def)
  have 2: "getProp (JArr []) ''location'' = Inr None"
    by simp
  have 3: "\<forall>e\<in>set [colosseum]. \<not> sublist (normalizeText (location e)) ''paris france''"
    unfolding includesStr_sublist[symmetric] by code_simp
  have 4: "''Trastevere, Rome, Italy'' \<noteq> [] \<and>
           (sublist (normalizeText ''Rome, Italy'') (normalizeText ''Trastevere, Rome, Italy'') \<or>
            (\<exists>e\<in>set [colosseum]. normalizeText (location e) \<noteq> [] \<and>
                 sublist (normalizeText (location e)) (normalizeText ''Trastevere, Rome, Italy'')))"
    unfolding includesStr_sublist[symmetric] by code_simp
  from validateDestination_accepts[of trastevere "''Trastevere, Rome, Italy''" "''Rome, Italy''"
      "[colosseum]" "[colosseum]"] 1 3 4
  have a: "validateDestination trastevere ''Rome, Italy'' [colosseum] = Inr True" and
       c: "validateDestination (JObj [(''location'', JStr ''Paris, France'')]) ''Rome, Italy''
             [colosseum] = Inr False"
    by simp_all
  from validateDestination_accepts[of "JArr []" "[]" "''Rome, Italy''" "[colosseum]" "[]"] 2
  have b: "validateDestination (JArr []) ''Rome, Italy'' [colosseum] = Inr False"
    by simp
  from 1 2 a b c show ?thesis by simp
qed

text \<open>
  C3 as it is stated fails on an event whose location normalizes to the empty string:
  every text contains the empty string, yet the code leaves such locations out. With the
  destination "Rome" and an event located "?", a suggestion located "Paris" is rejected,
  although its normalized location contains the normalized location of the event.
\<close>

theorem validateDestination_counterexample:
  "validateDestination (JObj [(''location'', JStr ''Paris'')]) ''Rome'' [dinner] = Inr False \<and>
   includesStr (normalizeText ''Paris'') (normalizeText (location dinner))"
  by code_simp

subsection \<open>The loop over the candidates\<close>

lemma validateLoop_filter:
  "validateLoop H ss evs dest remaining acc = Inr r \<Longrightarrow>
   r = acc @ filter (passes H evs dest remaining) ss"
proof (induction ss arbitrary: acc)
  case Nil
  then show ?case by simp
next
  case (Cons s ss)
  from Cons.prems obtain d b dup where
    d: "validateDestination s dest evs = Inr d" and
    b: "validateBudget H s remaining = Inr b" and
    dup: "isDuplicate evs s = Inr dup" and
    rest: "validateLoop H ss evs dest remaining (if d \<and> b \<and> \<not> dup then acc @ [s] else acc) = Inr r"
    by (auto simp: Let_def split: sum.splits if_splits)
  from Cons.IH[OF rest] d b dup show ?case
    by (simp add: passes_def)
qed

lemma isSuggestion_location:
  "isSuggestion s \<Longrightarrow> getProp s ''location'' = Inr None \<or> getProp s ''location'' = Inr (Some (JStr (locationOf s)))"
  by (cases s) (auto simp: locationOf_def split: option.splits json.splits)

lemma isSuggestion_destination:
  "isSuggestion s \<Longrightarrow> \<exists>d. validateDestination s dest evs = Inr d"
  using isSuggestion_location[of s] validateDestination_string validateDestination_undefined
  by blast

lemma isSuggestion_budget:
  "isSuggestion s \<Longrightarrow> validateBudget H s remaining = Inr (costOf s \<le> remaining)"
  by (cases s) (auto simp: validateBudget_def costOf_def split: option.splits json.splits)

lemma isDuplicate_string:
  "getProp s ''name'' = Inr (Some (JStr n)) \<Longrightarrow>
   isDuplicate evs s = Inr (\<exists>e\<in>set evs. toLowerCase (name e) = toLowerCase n)"
  by (induction evs) auto

lemma isSuggestion_name:
  "isSuggestion s \<Longrightarrow> getProp s ''name'' = Inr (Some (JStr (nameOf s)))"
  by (cases s) (auto simp: nameOf_def split: option.splits json.splits)

lemma isSuggestion_duplicate:
  "isSuggestion s \<Longrightarrow>
   isDuplicate evs s = Inr (\<exists>e\<in>set evs. toLowerCase (name e) = toLowerCase (nameOf s))"
  by (simp add: isDuplicate_string isSuggestion_name)

lemma isSuggestion_nameText: "isSuggestion s \<Longrightarrow> nameText H s = Inr ()"
  by (simp add: nameText_def isSuggestion_name)

lemma validateLoop_total:
  "\<forall>s\<in>set ss. isSuggestion s \<Longrightarrow> \<exists>r. validateLoop H ss evs dest remaining acc = Inr r"
proof (induction ss arbitrary: acc)
  case Nil
  then show ?case by simp
next
  case (Cons s ss)
  then have s: "isSuggestion s" and ss: "\<forall>s\<in>set ss. isSuggestion s" by simp_all
  from isSuggestion_destination[OF s] obtain d where d: "validateDestination s dest evs = Inr d" ..
  show ?case
    using Cons.IH[OF ss] d
    by (simp add: isSuggestion_budget[OF s] isSuggestion_duplicate[OF s]
          isSuggestion_nameText[OF s] Let_def)
qed

lemma validateAllSuggestions_typed:
  assumes "\<forall>s\<in>set ss. isSuggestion s"
  shows "validateAllSuggestions H ss evs dest remaining =
     Inr (filter (\<lambda>s. validateDestination s dest evs = Inr True \<and> costOf s \<le> remaining \<and>
              \<not> (\<exists>e\<in>set evs. toLowerCase (name e) = toLowerCase (nameOf s))) ss)"
proof -
  from validateLoop_total[OF assms]
  obtain r where r: "validateLoop H ss evs dest remaining [] = Inr r" ..
  have "filter (passes H evs dest remaining) ss =
        filter (\<lambda>s. validateDestination s dest evs = Inr True \<and> costOf s \<le> remaining \<and>
              \<not> (\<exists>e\<in>set evs. toLowerCase (name e) = toLowerCase (nameOf s))) ss"
    using assms
    by (intro filter_cong refl) (simp add: passes_def isSuggestion_budget isSuggestion_duplicate)
  with validateLoop_filter[OF r] r show ?thesis
    by (simp add: validateAllSuggestions_def)
qed

text \<open>
  C2. Whenever \<open>validateAllSuggestions\<close> returns, it returns the candidates that pass
  the three checks, in the order of the input. For candidates of the declared type
  (the cost may be missing) it always returns, and the candidates it keeps are those
  whose destination check succeeds, whose cost, 0 when missing, is at most the remaining
  budget (a cost equal to it passes), and whose name, in lower case, is not the name in
  lower case of any event. The result is a subsequence of the input.
\<close>

theorem validateAllSuggestions_filters:
  "(validateAllSuggestions H ss evs dest remaining = Inr r \<longrightarrow>
      r = filter (passes H evs dest remaining) ss \<and> subseq r ss) \<and>
   ((\<forall>s\<in>set ss. isSuggestion s) \<longrightarrow>
      validateAllSuggestions H ss evs dest remaining =
        Inr (filter (\<lambda>s. validateDestination s dest evs = Inr True \<and> costOf s \<le> remaining \<and>
                 \<not> (\<exists>e\<in>set evs. toLowerCase (name e) = toLowerCase (nameOf s))) ss))"
proof -
  have "r = filter (passes H evs dest remaining) ss \<and> subseq r ss"
    if "validateAllSuggestions H ss evs dest remaining = Inr r"
    using validateLoop_filter[of H ss evs dest remaining "[]" r] that
    by (simp add: validateAllSuggestions_def)
  then show ?thesis
    using validateAllSuggestions_typed by blast
qed

text \<open>
  With 50 left and the Colosseum tour in the itinerary: a walk that costs exactly 50 and
  a fountain without a cost are kept; a menu of 75, a second "colosseum tour" and a tower
  in Paris are dropped.
\<close>

theorem validateAllSuggestions_filters_witness:
  "validateAllSuggestions exampleHost [trastevere, tasting, again, eiffel, trevi] [colosseum]
     ''Rome, Italy'' 50 = Inr [trastevere, trevi] \<and>
   list_all isSuggestion [trastevere, tasting, again, eiffel, trevi] \<and>
   [trastevere, trevi] =
     filter (passes exampleHost [colosseum] ''Rome, Italy'' 50)
       [trastevere, tasting, again, eiffel, trevi] \<and>
   subseq [trastevere, trevi] [trastevere, tasting, again, eiffel, trevi]"
proof -
  have 1: "validateAllSuggestions exampleHost [trastevere, tasting, again, eiffel, trevi]
     [colosseum] ''Rome, Italy'' 50 = Inr [trastevere, trevi]"
    by code_simp
  have 2: "list_all isSuggestion [trastevere, tasting, again, eiffel, trevi]"
    by code_simp
  from validateAllSuggestions_filters[of exampleHost
      "[trastevere, tasting, again, eiffel, trevi]" "[colosseum]" "''Rome, Italy''" 50
      "[trastevere, trevi]"] 1 2
  show ?thesis by blast
qed

text \<open>
  C10. When the destination holds no letter and no digit it normalizes to the empty
  string, and \<open>validateDestination\<close> accepts every suggestion whose location is a
  non-empty string, whatever the events. The candidates that
  \<open>validateAllSuggestions\<close> then returns, among well-typed candidates with a location,
  are those within the budget whose name no event has.
\<close>

theorem validateDestination_empty_destination:
  assumes "\<forall>c\<in>set dest. \<not> isUpper c \<and> \<not> isLower c \<and> \<not> isDigit c"
  shows "normalizeText dest = [] \<and>
    (getProp s ''location'' = Inr (Some (JStr l)) \<and> l \<noteq> [] \<longrightarrow>
       validateDestination s dest evs = Inr True) \<and>
    ((\<forall>s\<in>set ss. isSuggestion s \<and> locationOf s \<noteq> []) \<longrightarrow>
       validateAllSuggestions H ss evs dest remaining =
         Inr (filter (\<lambda>s. costOf s \<le> remaining \<and>
                  \<not> (\<exists>e\<in>set evs. toLowerCase (name e) = toLowerCase (nameOf s))) ss))"
proof -
  have n: "normalizeText dest = []"
    using assms by (rule normalizeText_no_alnum)
  have one: "validateDestination s dest evs = Inr True"
    if "getProp s ''location'' = Inr (Some (JStr l))" and "l \<noteq> []" for s l
    using that by (simp add: validateDestination_string n)
  have all: "validateAllSuggestions H ss evs dest remaining =
         Inr (filter (\<lambda>s. costOf s \<le> remaining \<and>
                  \<not> (\<exists>e\<in>set evs. toLowerCase (name e) = toLowerCase (nameOf s))) ss)"
    if typed: "\<forall>s\<in>set ss. isSuggestion s \<and> locationOf s \<noteq> []"
  proof -
    have "validateDestination s dest evs = Inr True" if "s \<in> set ss" for s
    proof -
      from typed that have "isSuggestion s" and l: "locationOf s \<noteq> []" by simp_all
      with isSuggestion_location[of s]
      have "getProp s ''location'' = Inr (Some (JStr (locationOf s)))"
        by (auto simp: locationOf_def)
      then show ?thesis using l by (rule one)
    qed
    then have "filter (\<lambda>s. validateDestination s dest evs = Inr True \<and> costOf s \<le> remaining \<and>
              \<not> (\<exists>e\<in>set evs. toLowerCase (name e) = toLowerCase (nameOf s))) ss =
          filter (\<lambda>s. costOf s \<le> remaining \<and>
              \<not> (\<exists>e\<in>set evs. toLowerCase (name e) = toLowerCase (nameOf s))) ss"
      by (intro filter_cong refl) simp
    moreover from typed have "\<forall>s\<in>set ss. isSuggestion s" by simp
    ultimately show ?thesis by (simp add: validateAllSuggestions_typed)
  qed
  from n one all show ?thesis by blast
qed

text \<open>
  With the destination "!!!" and an itinerary whose only event is in Rome, a tower in
  Paris passes the destination check, and of the five candidates only the menu of 75 and
  the second "colosseum tour" are dropped.
\<close>

theorem validateDestination_empty_destination_witness:
  "normalizeText ''!!!'' = [] \<and>
   validateDestination eiffel ''!!!'' [colosseum] = Inr True \<and>
   validateAllSuggestions exampleHost [trastevere, tasting, again, eiffel, trevi] [colosseum]
     ''!!!'' 50 = Inr [trastevere, eiffel, trevi]"
proof -
  have 1: "\<forall>c\<in>set ''!!!''. \<not> isUpper c \<and> \<not> isLower c \<and> \<not> isDigit c"
    by code_simp
  have 2: "getProp eiffel ''location'' = Inr (Some (JStr ''Paris, France'')) \<and>
           ''Paris, France'' \<noteq> []"
    by code_simp
  have 3: "\<forall>s\<in>set [trastevere, tasting, again, eiffel, trevi].
             isSuggestion s \<and> locationOf s \<noteq> []"
    by code_simp
  have 4: "filter (\<lambda>s. costOf s \<le> 50 \<and>
                  \<not> (\<exists>e\<in>set [colosseum]. toLowerCase (name e) = toLowerCase (nameOf s)))
             [trastevere, tasting, again, eiffel, trevi] = [trastevere, eiffel, trevi]"
    by code_simp
  from validateDestination_empty_destination[OF 1, of eiffel "''Paris, France''" "[colosseum]"
      "[trastevere, tasting, again, eiffel, trevi]" exampleHost 50] 2 3 4
  show ?thesis by simp
qed

subsection \<open>The reply of the gateway\<close>

lemma dropWhile_eq_ConsD:
  assumes "dropWhile P xs = y # ys"
  shows "xs = takeWhile P xs @ y # ys \<and> \<not> P y \<and> (\<forall>x\<in>set (takeWhile P xs). P x)"
proof -
  have "takeWhile P xs @ dropWhile P xs = xs" by (rule takeWhile_dropWhile_id)
  with assms have 1: "xs = takeWhile P xs @ y # ys" by simp
  have "dropWhile P xs \<noteq> []" using assms by simp
  then have "\<not> P (hd (dropWhile P xs))" by (rule hd_dropWhile)
  with assms have 2: "\<not> P y" by simp
  have 3: "\<forall>x\<in>set (takeWhile P xs). P x" by (auto dest: set_takeWhileD)
  from 1 2 3 show ?thesis by blast
qed

lemma matchArray_span:
  assumes "CHR ''['' \<notin> set pre" and "CHR '']'' \<notin> set post"
  shows "matchArray (pre @ CHR ''['' # mid @ CHR '']'' # post) = Some (CHR ''['' # mid @ [CHR '']''])"
proof -
  have "dropWhile (\<lambda>c. c \<noteq> CHR ''['') pre = []"
    using assms(1) by (intro dropWhile_all) auto
  then have 1: "dropWhile (\<lambda>c. c \<noteq> CHR ''['') (pre @ CHR ''['' # mid @ CHR '']'' # post)
           = CHR ''['' # mid @ CHR '']'' # post"
    by (simp add: dropWhile_append3)
  have "dropWhile (\<lambda>c. c \<noteq> CHR '']'') (rev post) = []"
    using assms(2) by (intro dropWhile_all) auto
  then have 2: "dropWhile (\<lambda>c. c \<noteq> CHR '']'') (rev post @ CHR '']'' # rev mid) = CHR '']'' # rev mid"
    by (simp add: dropWhile_append3)
  show ?thesis
    unfolding matchArray_def 1 by (simp add: 2)
qed

lemma matchArray_SomeD:
  assumes "matchArray reply = Some m"
  shows "\<exists>pre mid post. reply = pre @ CHR ''['' # mid @ CHR '']'' # post \<and>
           CHR ''['' \<notin> set pre \<and> CHR '']'' \<notin> set post \<and> m = CHR ''['' # mid @ [CHR '']'']"
proof -
  from assms obtain bra rest where
    a: "dropWhile (\<lambda>c. c \<noteq> CHR ''['') reply = bra # rest"
    by (cases "dropWhile (\<lambda>c. c \<noteq> CHR ''['') reply") (simp_all add: matchArray_def)
  with assms obtain ket body where
    b: "dropWhile (\<lambda>c. c \<noteq> CHR '']'') (rev rest) = ket # body" and
    m: "m = bra # rev body @ [ket]"
    by (cases "dropWhile (\<lambda>c. c \<noteq> CHR '']'') (rev rest)") (auto simp add: matchArray_def)
  let ?pre = "takeWhile (\<lambda>c. c \<noteq> CHR ''['') reply"
  let ?tsop = "takeWhile (\<lambda>c. c \<noteq> CHR '']'') (rev rest)"
  from dropWhile_eq_ConsD[OF a] have
    t: "reply = ?pre @ bra # rest" and o: "bra = CHR ''[''" and p: "CHR ''['' \<notin> set ?pre"
    by auto
  from dropWhile_eq_ConsD[OF b] have
    r: "rev rest = ?tsop @ ket # body" and c: "ket = CHR '']''" and q: "CHR '']'' \<notin> set ?tsop"
    by auto
  from r have "rev (rev rest) = rev (?tsop @ ket # body)" by (rule arg_cong)
  then have "rest = rev body @ ket # rev ?tsop" by simp
  with t o c have "reply = ?pre @ CHR ''['' # rev body @ CHR '']'' # rev ?tsop" by simp
  moreover from q have "CHR '']'' \<notin> set (rev ?tsop)" by simp
  ultimately show ?thesis using p m o c by blast
qed

lemma tryBlock_Resolved:
  assumes m: "matchArray reply = Some m"
  shows "tryBlock H it (Resolved reply) =
     (case JSON_parse H m of
        Inl e \<Rightarrow> Inl e
      | Inr (JArr ss) \<Rightarrow>
          validateAllSuggestions H ss (events it) (destination (trip it)) (getRemainingBudget H it)
      | Inr other \<Rightarrow> Inl InvalidFormat)"
proof (cases "JSON_parse H m")
  case (Inl e)
  then show ?thesis by (simp add: tryBlock_def m)
next
  case (Inr v)
  show ?thesis
  proof (cases v)
    case (JArr ss)
    show ?thesis
      by (cases "validateAllSuggestions H ss (events it) (destination (trip it))
                   (getRemainingBudget H it)")
         (simp_all add: tryBlock_def m Inr JArr)
  qed (simp_all add: tryBlock_def m Inr)
qed

lemma tryBlock_Inr:
  assumes "tryBlock H it llm = Inr r"
  shows "\<exists>ss. validateAllSuggestions H ss (events it) (destination (trip it))
                (getRemainingBudget H it) = Inr r"
proof (cases "replyText llm")
  case (Inl e)
  with assms show ?thesis by (simp add: tryBlock_def)
next
  case (Inr reply)
  show ?thesis
  proof (cases "matchArray reply")
    case None
    with assms Inr show ?thesis by (simp add: tryBlock_def)
  next
    case (Some m)
    show ?thesis
    proof (cases "JSON_parse H m")
      case (Inl e)
      with assms Inr Some show ?thesis by (simp add: tryBlock_def)
    next
      case parsed: (Inr v)
      show ?thesis
      proof (cases v)
        case (JArr ss)
        with assms Inr Some parsed show ?thesis
          by (cases "validateAllSuggestions H ss (events it) (destination (trip it))
                       (getRemainingBudget H it)")
             (auto simp add: tryBlock_def)
      qed (use assms Inr Some parsed in \<open>simp_all add: tryBlock_def\<close>)
    qed
  qed
qed

lemma request_Inr:
  assumes "requestSuggestionFromLLM H it llm = Inr r"
  shows "r = [] \<or> tryBlock H it llm = Inr r"
proof (cases "tryBlock H it llm")
  case (Inl e)
  with assms show ?thesis
    by (cases "message e") (simp_all add: requestSuggestionFromLLM_def)
next
  case (Inr v)
  with assms show ?thesis by (simp add: requestSuggestionFromLLM_def)
qed

lemma request_result:
  assumes "requestSuggestionFromLLM H it llm = Inr r" and "s \<in> set r"
  shows "\<exists>ss. validateAllSuggestions H ss (events it) (destination (trip it))
                (getRemainingBudget H it) = Inr r"
proof -
  from request_Inr[OF assms(1)] assms(2) have "tryBlock H it llm = Inr r" by auto
  then show ?thesis by (rule tryBlock_Inr)
qed

text \<open>
  What the handler does with each error: the request throws exactly when what the
  block under \<^verbatim>\<open>try\<close> threw is \<^verbatim>\<open>undefined\<close> or \<^verbatim>\<open>null\<close>, and returns the empty list for
  every other error.
\<close>

lemma message_TypeError:
  "message e = Inl err \<longleftrightarrow> err = TypeError \<and> (e = Thrown None \<or> e = Thrown (Some JNull))"
  by (induction e rule: message.induct) auto

lemma request_throws_iff:
  "requestSuggestionFromLLM H it llm = Inl err \<longleftrightarrow>
     err = TypeError \<and>
     (tryBlock H it llm = Inl (Thrown None) \<or> tryBlock H it llm = Inl (Thrown (Some JNull)))"
proof (cases "tryBlock H it llm")
  case (Inl e)
  then show ?thesis
    using message_TypeError[of e err]
    by (cases "message e") (auto simp: requestSuggestionFromLLM_def)
next
  case (Inr v)
  then show ?thesis by (simp add: requestSuggestionFromLLM_def)
qed

lemma request_soft:
  assumes "tryBlock H it llm = Inl e" and "e \<noteq> Thrown None" and "e \<noteq> Thrown (Some JNull)"
  shows "requestSuggestionFromLLM H it llm = Inr []"
proof (cases "message e")
  case (Inl err)
  with assms(2,3) message_TypeError[of e err] show ?thesis by simp
next
  case (Inr u)
  with assms(1) show ?thesis by (simp add: requestSuggestionFromLLM_def)
qed

lemma request_no_match:
  "matchArray reply = None \<Longrightarrow> requestSuggestionFromLLM H it (Resolved reply) = Inr []"
  by (simp add: requestSuggestionFromLLM_def tryBlock_def)

lemma request_not_text:
  "(\<forall>s. v \<noteq> Some (JStr s)) \<Longrightarrow> requestSuggestionFromLLM H it (ResolvedOther v) = Inr []"
  by (cases "(ResolvedOther v)" rule: replyText.cases)
     (simp_all add: requestSuggestionFromLLM_def tryBlock_def)

text \<open>
  C4, as the code has it. The span that is parsed runs from the first \<^verbatim>\<open>[\<close> of the reply
  to the last \<^verbatim>\<open>]\<close> after it, brackets in between being neither counted nor matched:
  a reply \<open>pre [ mid ] post\<close> with no \<^verbatim>\<open>[\<close> in \<open>pre\<close> and no \<^verbatim>\<open>]\<close> in \<open>post\<close> gives
  \<open>[ mid ]\<close>, whatever \<open>mid\<close> holds, and exactly that span goes to \<^verbatim>\<open>JSON.parse\<close>. Every
  match is of that form, and a reply without a match raises the error that carries the
  reply.
\<close>

theorem matchArray_first_to_last:
  "(CHR ''['' \<notin> set pre \<and> CHR '']'' \<notin> set post \<longrightarrow>
      matchArray (pre @ ''['' @ mid @ '']'' @ post) = Some (''['' @ mid @ '']'') \<and>
      tryBlock H it (Resolved (pre @ ''['' @ mid @ '']'' @ post)) =
        (case JSON_parse H (''['' @ mid @ '']'') of
           Inl e \<Rightarrow> Inl e
         | Inr (JArr ss) \<Rightarrow>
             validateAllSuggestions H ss (events it) (destination (trip it))
               (getRemainingBudget H it)
         | Inr other \<Rightarrow> Inl InvalidFormat)) \<and>
   (matchArray reply = Some m \<longrightarrow>
      (\<exists>pre mid post. reply = pre @ ''['' @ mid @ '']'' @ post \<and>
         CHR ''['' \<notin> set pre \<and> CHR '']'' \<notin> set post \<and> m = ''['' @ mid @ '']'')) \<and>
   (matchArray reply = None \<longrightarrow> tryBlock H it (Resolved reply) = Inl (NoArrayInReply reply))"
proof -
  have 1: "matchArray (pre @ ''['' @ mid @ '']'' @ post) = Some (''['' @ mid @ '']'')"
    if "CHR ''['' \<notin> set pre" and "CHR '']'' \<notin> set post"
    using matchArray_span[OF that, of mid] by simp
  have 2: "\<exists>pre mid post. reply = pre @ ''['' @ mid @ '']'' @ post \<and>
         CHR ''['' \<notin> set pre \<and> CHR '']'' \<notin> set post \<and> m = ''['' @ mid @ '']''"
    if "matchArray reply = Some m"
    using matchArray_SomeD[OF that] by simp
  have 3: "tryBlock H it (Resolved reply) = Inl (NoArrayInReply reply)"
    if "matchArray reply = None"
    using that by (simp add: tryBlock_def)
  from 1 2 3 show ?thesis
    by (simp add: tryBlock_Resolved)
qed

text \<open>
  A reply with two arrays: the span starts at the first and ends with the last, and the
  parser rejects it.
\<close>

theorem matchArray_first_to_last_witness:
  "matchArray twoArraysReply = Some ''[1]. Others: [2, 3]'' \<and>
   tryBlock exampleHost romeItinerary (Resolved twoArraysReply) = Inl SyntaxError"
proof -
  have 1: "CHR ''['' \<notin> set ''Top pick: '' \<and> CHR '']'' \<notin> set ''.''"
    by simp
  have 2: "''Top pick: '' @ ''['' @ ''1]. Others: [2, 3'' @ '']'' @ ''.'' = twoArraysReply"
    by (simp add: twoArraysReply_def)
  have 3: "JSON_parse exampleHost (''['' @ ''1]. Others: [2, 3'' @ '']'') = Inl SyntaxError"
    by code_simp
  from matchArray_first_to_last[of "''Top pick: ''" "''.''" "''1]. Others: [2, 3''"
      exampleHost romeItinerary] 1
  show ?thesis
    unfolding 2 3 by simp
qed

text \<open>
  C4 as it is stated fails on a reply with two arrays: the first balanced array of
  "Top pick: [1]. Others: [2, 3]." is "[1]", and the span that is parsed is not.
\<close>

theorem matchArray_counterexample:
  "matchArray twoArraysReply = Some ''[1]. Others: [2, 3]'' \<and>
   matchArray twoArraysReply \<noteq> Some ''[1]''"
  by code_simp

text \<open>
  C1. \<open>requestSuggestionFromLLM\<close> should return a list whatever the gateway does, and
  its handler does return the empty list when the gateway rejects with an \<^verbatim>\<open>Error\<close>. But
  the handler reads the message of what it caught before it returns: when the gateway
  rejects with \<^verbatim>\<open>undefined\<close> or with \<^verbatim>\<open>null\<close>, that read raises a \<^verbatim>\<open>TypeError\<close> inside the
  handler, and the function throws to its caller.
\<close>

theorem requestSuggestionFromLLM_rejected_undefined:
  "requestSuggestionFromLLM H it (Rejected (Thrown None)) = Inl TypeError \<and>
   requestSuggestionFromLLM H it (Rejected (Thrown (Some JNull))) = Inl TypeError \<and>
   requestSuggestionFromLLM H it (Rejected (GatewayError m)) = Inr []"
  by (simp add: requestSuggestionFromLLM_def tryBlock_def)

text \<open>
  C5. A candidate that lacks a field should count as rejected and leave the others
  alone. A candidate without a location does (the destination check answers false), and
  one without a cost counts as free; but \<open>isDuplicate\<close> reads the name of the candidate
  without any such guard, so that a candidate without a name, in an itinerary that has
  an event, raises a \<^verbatim>\<open>TypeError\<close> which ends the loop: the valid candidate after it,
  returned when it comes alone, is lost, and the request returns the empty list.
\<close>

theorem validateAllSuggestions_missing_name:
  "validateAllSuggestions exampleHost [nameless, pantheon] (events romeItinerary)
     (destination (trip romeItinerary)) (getRemainingBudget exampleHost romeItinerary) = Inl TypeError \<and>
   validateAllSuggestions exampleHost [pantheon] (events romeItinerary)
     (destination (trip romeItinerary)) (getRemainingBudget exampleHost romeItinerary) = Inr [pantheon] \<and>
   requestSuggestionFromLLM exampleHost romeItinerary (Resolved namelessReply) = Inr []"
  by code_simp

text \<open>
  C6, as the code has it. Every suggestion that \<open>requestSuggestionFromLLM\<close> returns has
  a non-empty location which, normalized, contains the normalized destination of the
  trip or the normalized, non-empty location of some event of the itinerary: of any
  event, approved or not.
\<close>

theorem requestSuggestionFromLLM_justified:
  assumes "requestSuggestionFromLLM H it llm = Inr r" and "s \<in> set r"
  shows "\<exists>l. getProp s ''location'' = Inr (Some (JStr l)) \<and> l \<noteq> [] \<and>
           (sublist (normalizeText (destination (trip it))) (normalizeText l) \<or>
            (\<exists>e\<in>set (events it). normalizeText (location e) \<noteq> [] \<and>
                 sublist (normalizeText (location e)) (normalizeText l)))"
proof -
  from request_result[OF assms] obtain ss where
    "validateAllSuggestions H ss (events it) (destination (trip it)) (getRemainingBudget H it) = Inr r"
    ..
  then have "r = filter (passes H (events it) (destination (trip it)) (getRemainingBudget H it)) ss"
    using validateLoop_filter[of H ss "events it" "destination (trip it)" "getRemainingBudget H it" "[]" r]
    by (simp add: validateAllSuggestions_def)
  with assms(2) have "validateDestination s (destination (trip it)) (events it) = Inr True"
    by (simp add: passes_def)
  then show ?thesis by (rule validateDestination_TrueD)
qed

text \<open>
  The trip "Spring Break" with a pending visit of the Louvre: the tower in Paris is
  returned, and its location contains the location of that event.
\<close>

theorem requestSuggestionFromLLM_justified_witness:
  "requestSuggestionFromLLM exampleHost springBreakItinerary (Resolved eiffelReply) = Inr [eiffel] \<and>
   (\<exists>l. getProp eiffel ''location'' = Inr (Some (JStr l)) \<and> l \<noteq> [] \<and>
      (sublist (normalizeText (destination (trip springBreakItinerary))) (normalizeText l) \<or>
       (\<exists>e\<in>set (events springBreakItinerary). normalizeText (location e) \<noteq> [] \<and>
            sublist (normalizeText (location e)) (normalizeText l))))"
proof -
  have 1: "requestSuggestionFromLLM exampleHost springBreakItinerary (Resolved eiffelReply)
             = Inr [eiffel]"
    by code_simp
  have 2: "eiffel \<in> set [eiffel]"
    by simp
  from requestSuggestionFromLLM_justified[OF 1 2] 1 show ?thesis by simp
qed

text \<open>
  C6 as it is stated fails when the event whose location justifies a suggestion is not
  approved: for the trip "Spring Break", whose only event, a visit of the Louvre in
  Paris, is pending, the tower in Paris is returned, although no event is approved and
  its location does not contain the destination.
\<close>

theorem requestSuggestionFromLLM_approved_counterexample:
  "requestSuggestionFromLLM exampleHost springBreakItinerary (Resolved eiffelReply) = Inr [eiffel] \<and>
   filter approved (events springBreakItinerary) = [] \<and>
   \<not> includesStr (normalizeText (locationOf eiffel))
        (normalizeText (destination (trip springBreakItinerary)))"
  by code_simp

subsection \<open>The class\<close>

lemma create_throws_iff:
  "create st t b = Inl TripExists \<longleftrightarrow> (\<exists>i\<in>set (itineraries st). trip (itinObjs st ! i) = t)"
proof -
  have "(find (\<lambda>i. trip (itinObjs st ! i) = t) (itineraries st) = None)
        = (\<not> (\<exists>i\<in>set (itineraries st). trip (itinObjs st ! i) = t))"
    by (auto simp: find_None_iff)
  then show ?thesis
    by (cases "find (\<lambda>i. trip (itinObjs st ! i) = t) (itineraries st)")
       (auto simp add: create_def Let_def)
qed

lemma create_error: "create st t b = Inl err \<Longrightarrow> err = TripExists"
  by (auto simp: create_def Let_def split: if_splits)

lemma create_fresh:
  assumes "\<forall>i\<in>set (itineraries st). trip (itinObjs st ! i) \<noteq> t"
  shows "create st t b =
     Inr (length (itinObjs st),
          st\<lparr>itinObjs := itinObjs st @ [\<lparr>trip = t, events = [], finalized = False, budget = b\<rparr>],
             itineraries := itineraries st @ [length (itinObjs st)]\<rparr>)"
proof -
  have "find (\<lambda>i. trip (itinObjs st ! i) = t) (itineraries st) = None"
    using assms by (auto simp: find_None_iff)
  then show ?thesis by (simp add: create_def Let_def)
qed

lemma create_registers:
  assumes "create st t b = Inr (r, st')"
  shows "itinObjs st' ! r = \<lparr>trip = t, events = [], finalized = False, budget = b\<rparr> \<and>
         itineraries st' = itineraries st @ [r] \<and> eventObjs st' = eventObjs st \<and>
         tripObjs st' = tripObjs st"
  using assms by (auto simp: create_def Let_def split: if_splits)

lemma create_twice:
  assumes "create st t b = Inr (r, st')"
  shows "create st' t b' = Inl TripExists"
proof -
  from create_registers[OF assms]
  have "r \<in> set (itineraries st')" and "trip (itinObjs st' ! r) = t"
    by simp_all
  then show ?thesis unfolding create_throws_iff by blast
qed

lemma two_trips:
  "(case newTrip emptyStore T of (t1, s1) \<Rightarrow>
    case newTrip s1 T of (t2, s2) \<Rightarrow>
      t1 \<noteq> t2 \<and> tripObjs s2 ! t1 = tripObjs s2 ! t2 \<and>
      (case create s2 t1 ba of Inl e \<Rightarrow> False | Inr (r1, s3) \<Rightarrow>
       case create s3 t2 bb of Inl e \<Rightarrow> False | Inr (r2, s4) \<Rightarrow>
         r1 \<noteq> r2 \<and> create s4 t1 bc = Inl TripExists \<and> create s4 t2 bc = Inl TripExists))"
  by (simp add: newTrip_def emptyStore_def create_def Let_def)

text \<open>
  C8. \<open>create\<close> throws, and then the error that an itinerary for this trip already
  exists, if and only if a registered itinerary holds the very reference it is given;
  it throws nothing else. Otherwise it returns a new itinerary for that trip with no
  event, not finalized and with the given budget, and registers it, so that a second
  \<open>create\<close> for the same reference throws. Two trip objects with the same fields are
  two references: creating an itinerary succeeds for each, and fails for each after
  that.
\<close>

theorem create_duplicate_trip:
  "(create st t b = Inl TripExists \<longleftrightarrow>
      (\<exists>i\<in>set (itineraries st). trip (itinObjs st ! i) = t)) \<and>
   (create st t b = Inl err \<longrightarrow> err = TripExists) \<and>
   ((\<forall>i\<in>set (itineraries st). trip (itinObjs st ! i) \<noteq> t) \<longrightarrow>
      (\<exists>r st'. create st t b = Inr (r, st') \<and>
         itinObjs st' ! r = \<lparr>trip = t, events = [], finalized = False, budget = b\<rparr> \<and>
         itineraries st' = itineraries st @ [r] \<and>
         create st' t b' = Inl TripExists)) \<and>
   (case newTrip emptyStore T of (t1, s1) \<Rightarrow>
    case newTrip s1 T of (t2, s2) \<Rightarrow>
      t1 \<noteq> t2 \<and> tripObjs s2 ! t1 = tripObjs s2 ! t2 \<and>
      (case create s2 t1 ba of Inl e \<Rightarrow> False | Inr (r1, s3) \<Rightarrow>
       case create s3 t2 bb of Inl e \<Rightarrow> False | Inr (r2, s4) \<Rightarrow>
         r1 \<noteq> r2 \<and> create s4 t1 bc = Inl TripExists \<and> create s4 t2 bc = Inl TripExists))"
proof -
  have "\<exists>r st'. create st t b = Inr (r, st') \<and>
         itinObjs st' ! r = \<lparr>trip = t, events = [], finalized = False, budget = b\<rparr> \<and>
         itineraries st' = itineraries st @ [r] \<and>
         create st' t b' = Inl TripExists"
    if fresh: "\<forall>i\<in>set (itineraries st). trip (itinObjs st ! i) \<noteq> t"
  proof -
    from create_fresh[OF fresh] obtain r st' where c: "create st t b = Inr (r, st')"
      by blast
    from create_registers[OF c] create_twice[OF c] c show ?thesis
      by blast
  qed
  then show ?thesis
    using create_throws_iff[of st t b] create_error[of st t b err] two_trips[where T = T and ba = ba and bb = bb and bc = bc]
    by blast
qed

text \<open>
  Two trips to Rome with the same fields, at the references 0 and 1, and an itinerary
  for the first: \<open>create\<close> succeeds for the second, with the budget it is given, and
  throws for the first.
\<close>

theorem create_duplicate_trip_witness:
  "tripObjs (run twinCalls) ! 0 = tripObjs (run twinCalls) ! 1 \<and>
   list_all (\<lambda>i. trip (itinObjs (run twinCalls) ! i) \<noteq> 1) (itineraries (run twinCalls)) \<and>
   (\<exists>r st'. create (run twinCalls) 1 1000 = Inr (r, st') \<and>
      itinObjs st' ! r = \<lparr>trip = 1, events = [], finalized = False, budget = 1000\<rparr> \<and>
      itineraries st' = itineraries (run twinCalls) @ [r] \<and>
      create st' 1 500 = Inl TripExists) \<and>
   create (run twinCalls) 0 1000 = Inl TripExists"
proof -
  have 1: "tripObjs (run twinCalls) ! 0 = tripObjs (run twinCalls) ! 1"
    by code_simp
  have 2: "list_all (\<lambda>i. trip (itinObjs (run twinCalls) ! i) \<noteq> 1) (itineraries (run twinCalls))"
    by code_simp
  have 3: "\<exists>i\<in>set (itineraries (run twinCalls)). trip (itinObjs (run twinCalls) ! i) = 0"
    by code_simp
  from 2 have 4: "\<forall>i\<in>set (itineraries (run twinCalls)). trip (itinObjs (run twinCalls) ! i) \<noteq> 1"
    by (simp add: list_all_iff)
  from create_duplicate_trip[where st = "run twinCalls" and t = 1 and b = 1000 and b' = 500] 4
  have a: "\<exists>r st'. create (run twinCalls) 1 1000 = Inr (r, st') \<and>
      itinObjs st' ! r = \<lparr>trip = 1, events = [], finalized = False, budget = 1000\<rparr> \<and>
      itineraries st' = itineraries (run twinCalls) @ [r] \<and>
      create st' 1 500 = Inl TripExists"
    by blast
  from create_duplicate_trip[where st = "run twinCalls" and t = 0 and b = 1000] 3
  have b: "create (run twinCalls) 0 1000 = Inl TripExists"
    by blast
  from 1 2 a b show ?thesis by blast
qed

lemma list_all_update:
  assumes "list_all P xs" and "i < length xs \<Longrightarrow> P v"
  shows "list_all P (xs[i := v])"
proof (cases "i < length xs")
  case True
  with assms show ?thesis
    by (auto simp: list_all_iff dest: subsetD[OF set_update_subset_insert])
next
  case False
  then have "xs[i := v] = xs" by (simp add: list_update_beyond)
  with assms(1) show ?thesis by simp
qed

lemma exec_preserves:
  assumes "undecidedOrDecided st"
  shows "undecidedOrDecided (exec st c)"
proof (cases c)
  case (NewTrip t)
  with assms show ?thesis by (simp add: undecidedOrDecided_def newTrip_def)
next
  case (Create t b)
  with assms show ?thesis
    by (auto simp: undecidedOrDecided_def create_def Let_def split: if_splits)
next
  case (AddEvent n k l it s e)
  with assms show ?thesis by (simp add: undecidedOrDecided_def addEvent_def Let_def)
next
  case (UpdateEvent ev n k s e)
  from assms have old: "ev < length (eventObjs st) \<Longrightarrow>
      \<not> (approved (eventObjs st ! ev) \<and> pending (eventObjs st ! ev))"
    by (simp add: undecidedOrDecided_def list_all_length)
  have "list_all (\<lambda>e. \<not> (approved e \<and> pending e))
          ((eventObjs st)[ev := (eventObjs st ! ev)\<lparr>name := n, cost := k, start := s, end' := e\<rparr>])"
    using assms unfolding undecidedOrDecided_def
    by (rule list_all_update) (use old in simp)
  with UpdateEvent show ?thesis by (simp add: undecidedOrDecided_def updateEvent_def)
next
  case (SetEventApproval ev a)
  have "list_all (\<lambda>e. \<not> (approved e \<and> pending e))
          ((eventObjs st)[ev := (eventObjs st ! ev)\<lparr>approved := a, pending := False\<rparr>])"
    using assms unfolding undecidedOrDecided_def
    by (rule list_all_update) simp
  with SetEventApproval show ?thesis by (simp add: undecidedOrDecided_def setEventApproval_def)
next
  case (FinalizeItinerary it f)
  with assms show ?thesis by (simp add: undecidedOrDecided_def finalizeItinerary_def)
qed

lemma exec_keeps_flags:
  assumes "\<not> isSetEventApproval c" and "i < length (eventObjs st)"
  shows "approved (eventObjs (exec st c) ! i) = approved (eventObjs st ! i) \<and>
         pending (eventObjs (exec st c) ! i) = pending (eventObjs st ! i)"
proof (cases c)
  case (NewTrip t)
  then show ?thesis by (simp add: newTrip_def)
next
  case (Create t b)
  then show ?thesis by (auto simp: create_def Let_def split: if_splits)
next
  case (AddEvent n k l it s e)
  with assms(2) show ?thesis by (simp add: addEvent_def Let_def nth_append)
next
  case (UpdateEvent ev n k s e)
  with assms(2) show ?thesis by (cases "ev = i") (simp_all add: updateEvent_def)
next
  case (SetEventApproval ev a)
  with assms(1) show ?thesis by simp
next
  case (FinalizeItinerary it f)
  then show ?thesis by (simp add: finalizeItinerary_def)
qed

lemma snapshot_exampleCalls: "snapshot (run exampleCalls) 0 = romeItinerary"
  by code_simp

lemma run_invariant: "undecidedOrDecided (run calls)"
proof (induction calls rule: rev_induct)
  case Nil
  show ?case by (simp add: run_def undecidedOrDecided_def emptyStore_def)
next
  case (snoc c calls)
  then show ?case by (simp add: run_def exec_preserves)
qed

text \<open>
  C9. The event that \<open>addEvent\<close> creates is pending and not approved. After
  \<open>setEventApproval\<close> on an event, with either value and whatever the event was before,
  the event has the approval it was given and is not pending. No other call changes
  the two flags of an event that exists. And in every heap that calls of the class
  produce from the empty one, no event is both approved and pending.
\<close>

theorem approval_clears_pending:
  "(case addEvent st n c l it s e of (r, st') \<Rightarrow>
      eventObjs st' = eventObjs st @ [eventObjs st' ! r] \<and>
      pending (eventObjs st' ! r) \<and> \<not> approved (eventObjs st' ! r)) \<and>
   (ev < length (eventObjs st) \<longrightarrow>
      approved (eventObjs (setEventApproval st ev v) ! ev) = v \<and>
      \<not> pending (eventObjs (setEventApproval st ev v) ! ev)) \<and>
   (\<not> isSetEventApproval c' \<and> i < length (eventObjs st) \<longrightarrow>
      approved (eventObjs (exec st c') ! i) = approved (eventObjs st ! i) \<and>
      pending (eventObjs (exec st c') ! i) = pending (eventObjs st ! i)) \<and>
   undecidedOrDecided (run calls)"
  using exec_keeps_flags[of c' i st]
  by (simp add: addEvent_def setEventApproval_def Let_def run_invariant)

text \<open>
  The session of the test file: the Colosseum tour is approved and not pending after
  its approval, and rejected and not pending after a rejection that follows.
\<close>

theorem approval_clears_pending_witness:
  "0 < length (eventObjs (run exampleCalls)) \<and>
   approved (eventObjs (run exampleCalls) ! 0) \<and>
   \<not> approved (eventObjs (setEventApproval (run exampleCalls) 0 False) ! 0) \<and>
   \<not> pending (eventObjs (setEventApproval (run exampleCalls) 0 False) ! 0) \<and>
   undecidedOrDecided (run exampleCalls)"
proof -
  have 1: "0 < length (eventObjs (run exampleCalls))"
    by code_simp
  have 2: "approved (eventObjs (run exampleCalls) ! 0)"
    by code_simp
  from approval_clears_pending[where st = "run exampleCalls" and ev = 0 and v = False
      and calls = exampleCalls] 1 2
  show ?thesis by simp
qed

end
